theory Spec2Isabelle
  imports Main "HOL-Library.Word"
begin

section \<open>Text model\<close>

text \<open>
  A \<open>QChar\<close> is one UTF-16 code unit and a \<open>QString\<close> a sequence of them; the builder
  scans the replacement pattern by code unit. \<open>qc\<close> is the conversion of a character
  literal of the source (\<open>'g'\<close>) to its code unit, \<open>QStr\<close> that of a string literal.
\<close>

type_synonym QChar = "16 word"
type_synonym QString = "QChar list"

abbreviation qc :: "char \<Rightarrow> QChar" where
  "qc c \<equiv> of_char c"

abbreviation QStr :: "string \<Rightarrow> QString" where
  "QStr s \<equiv> map of_char s"

abbreviation BACKSLASH :: QChar where
  "BACKSLASH \<equiv> 0x5C"

text \<open>The macro \<open>is_hex(a)\<close>.\<close>

definition is_hex :: "QChar \<Rightarrow> bool" where
  "is_hex a =
     ((a \<ge> qc CHR ''0'' \<and> a \<le> qc CHR ''9'') \<or> (a \<ge> qc CHR ''a'' \<and> a \<le> qc CHR ''f'')
      \<or> (a \<ge> qc CHR ''A'' \<and> a \<le> qc CHR ''F''))"

text \<open>
  \<open>QString::toUInt(NULL, 16)\<close>. The builder calls it only on strings that consist of
  characters accepted by \<open>is_hex\<close>; there it is the value of the hexadecimal numeral, and
  a conversion that fails (empty string, other characters, a value beyond 32 bits)
  returns 0.
\<close>

definition hex_digit :: "QChar \<Rightarrow> nat" where
  "hex_digit a =
     (if a \<ge> qc CHR ''0'' \<and> a \<le> qc CHR ''9'' then unat a - 48
      else if a \<ge> qc CHR ''a'' \<and> a \<le> qc CHR ''f'' then unat a - 87
      else unat a - 55)"

definition hex_value :: "QString \<Rightarrow> nat" where
  "hex_value s = foldl (\<lambda>v a. 16 * v + hex_digit a) 0 s"

definition toUInt16 :: "QString \<Rightarrow> nat" where
  "toUInt16 s =
     (if s \<noteq> [] \<and> list_all is_hex s \<and> hex_value s < 2 ^ 32 then hex_value s else 0)"

text \<open>\<open>QChar(uint)\<close> keeps the low 16 bits of its argument.\<close>

definition QChar_of_uint :: "nat \<Rightarrow> QChar" where
  "QChar_of_uint v = of_nat v"

text \<open>\<open>QString::left(n)\<close> and \<open>QString::right(n)\<close>.\<close>

definition left :: "nat \<Rightarrow> QString \<Rightarrow> QString" where
  "left n s = take n s"

definition right :: "nat \<Rightarrow> QString \<Rightarrow> QString" where
  "right n s = drop (length s - n) s"

text \<open>
  The remaining primitives of the Qt library are parameters of the model: the Unicode
  classification and case mapping of a code unit and of a string, the decimal
  \<open>QString::toInt()\<close> (0 when the conversion fails) and \<open>QString::fromUcs4\<close> on one
  code point.
\<close>

record Qt =
  isDigit :: "QChar \<Rightarrow> bool"
  digitValue :: "QChar \<Rightarrow> int"
  toLower :: "QChar \<Rightarrow> QChar"
  toUpper :: "QChar \<Rightarrow> QChar"
  toLower_QString :: "QString \<Rightarrow> QString"
  toUpper_QString :: "QString \<Rightarrow> QString"
  toInt :: "QString \<Rightarrow> int"
  fromUcs4 :: "nat \<Rightarrow> QString"

text \<open>The compiled regular expression, as far as the builder consults it.\<close>

record SPCRE =
  isValid :: bool
  getCaptureStringNumber :: "QString \<Rightarrow> int"

text \<open>
  Modelled from the spec: \<open>Utility::Substring(start, end, text)\<close>, whose body is not part
  of the sources at hand. A capture span \<open>(start, end)\<close> holds the offsets into the source
  text that delimit the text matched by one capture group.
\<close>

definition Substring :: "int \<Rightarrow> int \<Rightarrow> QString \<Rightarrow> QString" where
  "Substring start_index end_index string =
     take (nat (end_index - start_index)) (drop (nat start_index) string)"

section \<open>The builder object\<close>

datatype CaseChange =
  CaseChange_LowerNext | CaseChange_Lower | CaseChange_UpperNext | CaseChange_Upper
  | CaseChange_None

record builder =
  m_finalText :: QString
  m_caseChangeState :: CaseChange

definition resetState :: "'a builder_scheme \<Rightarrow> 'a builder_scheme" where
  "resetState b = b\<lparr>m_finalText := [], m_caseChangeState := CaseChange_None\<rparr>"

definition trySetCaseChange :: "CaseChange \<Rightarrow> 'a builder_scheme \<Rightarrow> 'a builder_scheme" where
  "trySetCaseChange state b =
     (if m_caseChangeState b = CaseChange_None then b\<lparr>m_caseChangeState := state\<rparr> else b)"

text \<open>
  \<open>processTextSegement(const QString &)\<close> returns the processed text and may change the
  case mode of the object.
\<close>

definition processTextSegement ::
  "Qt \<Rightarrow> QString \<Rightarrow> 'a builder_scheme \<Rightarrow> QString \<times> 'a builder_scheme" where
  "processTextSegement qt text b =
     (if length text = 0 then ([], b)
      else (case m_caseChangeState b of
          CaseChange_LowerNext \<Rightarrow>
            ([toLower qt (hd text)] @ drop 1 text, b\<lparr>m_caseChangeState := CaseChange_None\<rparr>)
        | CaseChange_Lower \<Rightarrow> (toLower_QString qt text, b)
        | CaseChange_UpperNext \<Rightarrow>
            ([toUpper qt (hd text)] @ drop 1 text, b\<lparr>m_caseChangeState := CaseChange_None\<rparr>)
        | CaseChange_Upper \<Rightarrow> (toUpper_QString qt text, b)
        | CaseChange_None \<Rightarrow> (text, b)))"

definition processTextSegement_QChar ::
  "Qt \<Rightarrow> QChar \<Rightarrow> 'a builder_scheme \<Rightarrow> QString \<times> 'a builder_scheme" where
  "processTextSegement_QChar qt ch b = processTextSegement qt [ch] b"

definition accumulateReplcementText ::
  "Qt \<Rightarrow> QString \<Rightarrow> 'a builder_scheme \<Rightarrow> 'a builder_scheme" where
  "accumulateReplcementText qt text b =
     (case processTextSegement qt text b of
        (processed, b') \<Rightarrow> b'\<lparr>m_finalText := m_finalText b' @ processed\<rparr>)"

definition accumulateReplcementText_QChar ::
  "Qt \<Rightarrow> QChar \<Rightarrow> 'a builder_scheme \<Rightarrow> 'a builder_scheme" where
  "accumulateReplcementText_QChar qt ch b =
     (case processTextSegement_QChar qt ch b of
        (processed, b') \<Rightarrow> b'\<lparr>m_finalText := m_finalText b' @ processed\<rparr>)"

section \<open>IsValidHex6\<close>

definition IsValidHex6 :: "QString \<Rightarrow> bool" where
  "IsValidHex6 hv =
     (let hl = length hv in
      if hl < 2 \<or> hl = 3 \<or> hl = 5 \<or> hl > 6 then False
      else if \<not> list_all is_hex hv then False
      else if hl = 2 \<or> hl = 4 then True
      else if left 1 hv = QStr ''0'' \<or> left 2 hv = QStr ''10'' then True
      else False)"

section \<open>BuildReplacementText\<close>

text \<open>
  The local variables of \<open>BuildReplacementText\<close> that live across iterations of its loop,
  on top of the members of the object.
\<close>

record scan = builder +
  in_control :: bool
  control_char :: QChar
  backref_bracket_start_char :: QChar
  backref_name :: QString
  invalid_control :: QString
  control_x_hex :: QString
  control_x6_hex :: QString
  in_hex6 :: bool

text \<open>
  The substitution of a capture group, written twice in the source (lines 137-141 and
  230-234): the text of span \<open>backref_number\<close> when that is an index of
  \<open>capture_groups_offsets\<close>, the raw control otherwise.
\<close>

definition substitute_backref :: "Qt \<Rightarrow> QString \<Rightarrow> (int \<times> int) list \<Rightarrow> int \<Rightarrow> scan \<Rightarrow> scan" where
  "substitute_backref qt text capture_groups_offsets backref_number s =
     (if backref_number \<ge> 0 \<and> backref_number < int (length capture_groups_offsets) then
        accumulateReplcementText qt
          (Substring (fst (capture_groups_offsets ! nat backref_number))
                     (snd (capture_groups_offsets ! nat backref_number)) text) s
      else accumulateReplcementText qt (invalid_control s) s)"

text \<open>
  The first character after the backslash, where \<open>control_char.isNull()\<close> holds
  (lines 125-200). The chain of tests has no final \<open>else\<close>.
\<close>

definition control_start :: "Qt \<Rightarrow> QString \<Rightarrow> (int \<times> int) list \<Rightarrow> QChar \<Rightarrow> scan \<Rightarrow> scan" where
  "control_start qt text capture_groups_offsets c s0 =
     (let s = s0\<lparr>control_char := c\<rparr> in
      if isDigit qt c then
        (substitute_backref qt text capture_groups_offsets (digitValue qt c) s)
          \<lparr>in_control := False\<rparr>
      else if c = qc CHR ''a'' then (accumulateReplcementText qt [0x07] s)\<lparr>in_control := False\<rparr>
      else if c = qc CHR ''b'' then (accumulateReplcementText qt [0x08] s)\<lparr>in_control := False\<rparr>
      else if c = qc CHR ''f'' then (accumulateReplcementText qt [0x0C] s)\<lparr>in_control := False\<rparr>
      else if c = qc CHR ''n'' then (accumulateReplcementText qt [0x0A] s)\<lparr>in_control := False\<rparr>
      else if c = qc CHR ''r'' then (accumulateReplcementText qt [0x0D] s)\<lparr>in_control := False\<rparr>
      else if c = qc CHR ''t'' then (accumulateReplcementText qt [0x09] s)\<lparr>in_control := False\<rparr>
      else if c = qc CHR ''v'' then (accumulateReplcementText qt [0x0B] s)\<lparr>in_control := False\<rparr>
      else if c = BACKSLASH then
        (accumulateReplcementText qt [BACKSLASH] s)\<lparr>in_control := False\<rparr>
      else if c = qc CHR ''E'' then
        s\<lparr>m_caseChangeState := CaseChange_None, in_control := False\<rparr>
      else if c = qc CHR ''g'' then s\<lparr>backref_bracket_start_char := 0\<rparr>
      else if c = qc CHR ''l'' then
        (trySetCaseChange CaseChange_LowerNext s)\<lparr>in_control := False\<rparr>
      else if c = qc CHR ''L'' then
        (trySetCaseChange CaseChange_Lower s)\<lparr>in_control := False\<rparr>
      else if c = qc CHR ''u'' then
        (trySetCaseChange CaseChange_UpperNext s)\<lparr>in_control := False\<rparr>
      else if c = qc CHR ''U'' then
        (trySetCaseChange CaseChange_Upper s)\<lparr>in_control := False\<rparr>
      else s)"

text \<open>
  A later character of a control whose control character is \<open>g\<close> (lines 203-240).
\<close>

definition control_g ::
  "Qt \<Rightarrow> SPCRE \<Rightarrow> QString \<Rightarrow> (int \<times> int) list \<Rightarrow> QChar \<Rightarrow> scan \<Rightarrow> scan" where
  "control_g qt sre text capture_groups_offsets c s =
     (if backref_bracket_start_char s = 0 then
        (if c = qc CHR ''{'' \<or> c = qc CHR ''<'' then
           s\<lparr>backref_bracket_start_char := c, backref_name := []\<rparr>
         else accumulateReplcementText qt (invalid_control s) (s\<lparr>in_control := False\<rparr>))
      else if (c = qc CHR ''}'' \<and> backref_bracket_start_char s = qc CHR ''{'')
            \<or> (c = qc CHR ''>'' \<and> backref_bracket_start_char s = qc CHR ''<'') then
        (let backref_number = toInt qt (backref_name s);
             backref_number =
               (if backref_number = 0 \<and> backref_name s \<noteq> QStr ''0''
                then getCaptureStringNumber sre (backref_name s) else backref_number)
         in (substitute_backref qt text capture_groups_offsets backref_number s)
              \<lparr>in_control := False\<rparr>)
      else s\<lparr>backref_name := backref_name s @ [c]\<rparr>)"

text \<open>
  A later character of a control whose control character is \<open>x\<close> (lines 241-277).
\<close>

definition control_x :: "Qt \<Rightarrow> QChar \<Rightarrow> scan \<Rightarrow> scan" where
  "control_x qt c s =
     (if c = qc CHR ''{'' \<and> \<not> in_hex6 s then s\<lparr>in_hex6 := True\<rparr>
      else if c = qc CHR ''}'' \<and> in_hex6 s \<and> IsValidHex6 (control_x6_hex s) then
        (let hl = length (control_x6_hex s);
             s' = (if hl = 2 \<or> hl = 4 then
                     accumulateReplcementText_QChar qt
                       (QChar_of_uint (toUInt16 (control_x6_hex s))) s
                   else
                     (let extended_plane = left 2 (control_x6_hex s);
                          remainder = right 4 (control_x6_hex s);
                          achar = toUInt16 remainder;
                          achar = (65536 * toUInt16 extended_plane + achar) mod 2 ^ 32
                      in accumulateReplcementText qt (fromUcs4 qt achar) s))
         in s'\<lparr>in_control := False, in_hex6 := False, control_x6_hex := []\<rparr>)
      else if is_hex c then
        (if in_hex6 s then s\<lparr>control_x6_hex := control_x6_hex s @ [c]\<rparr>
         else
           (let s' = s\<lparr>control_x_hex := control_x_hex s @ [c]\<rparr> in
            if length (control_x_hex s') = 2 then
              (accumulateReplcementText_QChar qt
                 (QChar_of_uint (toUInt16 (control_x_hex s'))) s')\<lparr>in_control := False\<rparr>
            else s'))
      else (accumulateReplcementText qt (invalid_control s) s)\<lparr>in_control := False\<rparr>)"

text \<open>
  One iteration of the loop over the replacement pattern, on the character \<open>c\<close>
  (lines 117-305), and the loop itself.
\<close>

definition loop_body ::
  "Qt \<Rightarrow> SPCRE \<Rightarrow> QString \<Rightarrow> (int \<times> int) list \<Rightarrow> QChar \<Rightarrow> scan \<Rightarrow> scan" where
  "loop_body qt sre text capture_groups_offsets c s0 =
     (if in_control s0 then
        (let s = s0\<lparr>invalid_control := invalid_control s0 @ [c]\<rparr> in
         if control_char s = 0 then control_start qt text capture_groups_offsets c s
         else if control_char s = qc CHR ''g'' then
           control_g qt sre text capture_groups_offsets c s
         else if control_char s = qc CHR ''x'' then control_x qt c s
         else (accumulateReplcementText qt (invalid_control s) s)\<lparr>in_control := False\<rparr>)
      else if c = BACKSLASH then
        s0\<lparr>invalid_control := [c], control_char := 0, control_x_hex := [],
           control_x6_hex := [], in_hex6 := False, in_control := True\<rparr>
      else accumulateReplcementText_QChar qt c s0)"

fun scan_pattern ::
  "Qt \<Rightarrow> SPCRE \<Rightarrow> QString \<Rightarrow> (int \<times> int) list \<Rightarrow> QString \<Rightarrow> scan \<Rightarrow> scan" where
  "scan_pattern qt sre text capture_groups_offsets [] s = s"
| "scan_pattern qt sre text capture_groups_offsets (c # cs) s =
     scan_pattern qt sre text capture_groups_offsets cs
       (loop_body qt sre text capture_groups_offsets c s)"

text \<open>
  The locals as declared before the loop (lines 72-87), around the object \<open>b\<close>. A
  default-constructed \<open>QChar\<close> is the null character.
\<close>

definition locals_init :: "builder \<Rightarrow> scan" where
  "locals_init b =
     builder.extend b
       (scan.fields False 0 0 [] [] [] [] False)"

text \<open>After the loop (lines 311-313): an unterminated control is put into the text.\<close>

definition flush_control :: "Qt \<Rightarrow> scan \<Rightarrow> scan" where
  "flush_control qt s =
     (if in_control s then accumulateReplcementText qt (invalid_control s) s else s)"

text \<open>
  \<open>BuildReplacementText\<close> returns its boolean result, the value of the reference
  parameter \<open>out\<close> after the call, and the object after the call.
\<close>

definition BuildReplacementText ::
  "Qt \<Rightarrow> builder \<Rightarrow> SPCRE \<Rightarrow> QString \<Rightarrow> (int \<times> int) list \<Rightarrow> QString \<Rightarrow> QString
     \<Rightarrow> bool \<times> QString \<times> builder" where
  "BuildReplacementText qt this sre text capture_groups_offsets replacement_pattern out =
     (let b = resetState this in
      if \<not> isValid sre then (False, out, b)
      else if BACKSLASH \<notin> set replacement_pattern then (True, replacement_pattern, b)
      else
        (let s = scan_pattern qt sre text capture_groups_offsets replacement_pattern
                   (locals_init b);
             s = flush_control qt s
         in (True, m_finalText s, builder.truncate s)))"

section \<open>Sample data for running the builder\<close>

text \<open>
  An instance of the Qt primitives on the Basic Latin range, which is all the examples
  below use: ASCII digits and letters, decimal numerals without sign or blanks, and
  UTF-16 encoding of one code point.
\<close>

definition latin_isDigit :: "QChar \<Rightarrow> bool" where
  "latin_isDigit c = (qc CHR ''0'' \<le> c \<and> c \<le> qc CHR ''9'')"

definition latin_digitValue :: "QChar \<Rightarrow> int" where
  "latin_digitValue c = (if latin_isDigit c then uint c - 48 else - 1)"

definition latin_toLower :: "QChar \<Rightarrow> QChar" where
  "latin_toLower c = (if qc CHR ''A'' \<le> c \<and> c \<le> qc CHR ''Z'' then c + 32 else c)"

definition latin_toUpper :: "QChar \<Rightarrow> QChar" where
  "latin_toUpper c = (if qc CHR ''a'' \<le> c \<and> c \<le> qc CHR ''z'' then c - 32 else c)"

definition latin_toInt :: "QString \<Rightarrow> int" where
  "latin_toInt s =
     (if s \<noteq> [] \<and> list_all latin_isDigit s
      then foldl (\<lambda>v c. 10 * v + latin_digitValue c) 0 s else 0)"

definition utf16_of_ucs4 :: "nat \<Rightarrow> QString" where
  "utf16_of_ucs4 n =
     (if n < 65536 then [of_nat n]
      else [of_nat (55296 + (n - 65536) div 1024), of_nat (56320 + (n - 65536) mod 1024)])"

definition latin_qt :: Qt where
  "latin_qt =
     \<lparr>isDigit = latin_isDigit, digitValue = latin_digitValue,
      toLower = latin_toLower, toUpper = latin_toUpper,
      toLower_QString = map latin_toLower, toUpper_QString = map latin_toUpper,
      toInt = latin_toInt, fromUcs4 = utf16_of_ucs4\<rparr>"

text \<open>
  A valid regular expression with one named group, \<open>year\<close>, of index 1, and one that is
  not valid. An unknown name has the number \<open>-1\<close>.
\<close>

definition year_sre :: SPCRE where
  "year_sre =
     \<lparr>isValid = True,
      getCaptureStringNumber = (\<lambda>name. if name = QStr ''year'' then 1 else - 1)\<rparr>"

definition invalid_sre :: SPCRE where
  "invalid_sre = \<lparr>isValid = False, getCaptureStringNumber = (\<lambda>name. - 1)\<rparr>"

text \<open>A builder object as left behind by an earlier call.\<close>

definition used_builder :: builder where
  "used_builder = \<lparr>m_finalText = QStr ''old'', m_caseChangeState = CaseChange_Upper\<rparr>"

definition fresh_builder :: builder where
  "fresh_builder = \<lparr>m_finalText = [], m_caseChangeState = CaseChange_None\<rparr>"

text \<open>The source text \<open>In 2024 we met\<close> with the whole match and the group \<open>year\<close>.\<close>

definition sample_text :: QString where
  "sample_text = QStr ''In 2024 we met''"

definition sample_spans :: "(int \<times> int) list" where
  "sample_spans = [(0, 14), (3, 7)]"

section \<open>Unfolding rules\<close>

lemmas segment_defs = accumulateReplcementText_def accumulateReplcementText_QChar_def
  processTextSegement_def processTextSegement_QChar_def

lemmas body_defs = loop_body_def control_start_def control_g_def control_x_def
  substitute_backref_def trySetCaseChange_def

lemmas build_defs = BuildReplacementText_def resetState_def locals_init_def flush_control_def
  builder.extend_def scan.fields_def builder.truncate_def

lemmas latin_defs = latin_qt_def latin_isDigit_def latin_digitValue_def latin_toLower_def
  latin_toUpper_def latin_toInt_def utf16_of_ucs4_def

lemmas sample_defs = year_sre_def invalid_sre_def used_builder_def fresh_builder_def
  sample_text_def sample_spans_def

lemmas hex_defs = is_hex_def IsValidHex6_def toUInt16_def hex_value_def hex_digit_def
  QChar_of_uint_def left_def right_def

lemma scan_pattern_append:
  "scan_pattern qt sre text caps (xs @ ys) s =
     scan_pattern qt sre text caps ys (scan_pattern qt sre text caps xs s)"
  by (induction xs arbitrary: s) simp_all

section \<open>The result flag\<close>

text \<open>
  C2: \<open>BuildReplacementText\<close> returns false exactly when \<open>sre.isValid()\<close> is false. For a
  valid regular expression it returns true on every replacement pattern, malformed
  controls included.
\<close>

theorem success_iff_regex_valid:
  "fst (BuildReplacementText qt this sre text caps pattern out) = isValid sre"
  by (simp add: BuildReplacementText_def Let_def)

theorem success_iff_regex_valid_witness:
  "fst (BuildReplacementText latin_qt used_builder invalid_sre sample_text sample_spans
          (QStr ''plain'') []) = False
   \<and> fst (BuildReplacementText latin_qt used_builder year_sre sample_text sample_spans
          (BACKSLASH # QStr ''q'' @ BACKSLASH # QStr ''g{'' @ BACKSLASH # QStr ''x{12'') [])
       = True"
  using success_iff_regex_valid [of latin_qt used_builder invalid_sre sample_text sample_spans
          "QStr ''plain''" "[]"]
    success_iff_regex_valid [of latin_qt used_builder year_sre sample_text sample_spans
          "BACKSLASH # QStr ''q'' @ BACKSLASH # QStr ''g{'' @ BACKSLASH # QStr ''x{12''" "[]"]
  by (simp add: invalid_sre_def year_sre_def)

section \<open>Patterns without a backslash\<close>

text \<open>
  C3: for a valid regular expression and a replacement pattern that contains no
  backslash, \<open>BuildReplacementText\<close> returns true and \<open>out\<close> is the pattern itself; the
  object is left reset.
\<close>

theorem no_backslash_verbatim:
  assumes "isValid sre" and "BACKSLASH \<notin> set pattern"
  shows "BuildReplacementText qt this sre text caps pattern out
           = (True, pattern, resetState this)"
  using assms by (simp add: BuildReplacementText_def Let_def)

theorem no_backslash_verbatim_witness:
  "isValid year_sre \<and> BACKSLASH \<notin> set (QStr ''a $1 {b}'')
   \<and> BuildReplacementText latin_qt used_builder year_sre sample_text sample_spans
        (QStr ''a $1 {b}'') (QStr ''before'')
      = (True, QStr ''a $1 {b}'', \<lparr>m_finalText = [], m_caseChangeState = CaseChange_None\<rparr>)"
proof -
  have v: "isValid year_sre" by (simp add: year_sre_def)
  have n: "BACKSLASH \<notin> set (QStr ''a $1 {b}'')" by simp
  show ?thesis
    using v n no_backslash_verbatim [OF v n, of latin_qt used_builder sample_text sample_spans
        "QStr ''before''"]
    by (simp add: resetState_def used_builder_def)
qed

section \<open>Empty segments\<close>

text \<open>
  C10: an empty segment yields no text and leaves the case mode as it is:
  \<open>processTextSegement\<close> returns the empty string and the unchanged object, so
  \<open>accumulateReplcementText\<close> is the identity on it. A pending \<open>CaseChange_LowerNext\<close> or
  \<open>CaseChange_UpperNext\<close> survives the empty segment and acts on the first character of
  the next segment that is not empty. The substitution of a capture group whose span is
  empty is such a segment.
\<close>

theorem empty_segment_is_noop:
  "processTextSegement qt [] b = ([], b)
   \<and> accumulateReplcementText qt [] b = b
   \<and> accumulateReplcementText qt (x # xs)
        (accumulateReplcementText qt [] (b\<lparr>m_caseChangeState := CaseChange_LowerNext\<rparr>))
      = b\<lparr>m_finalText := m_finalText b @ toLower qt x # xs,
           m_caseChangeState := CaseChange_None\<rparr>
   \<and> accumulateReplcementText qt (x # xs)
        (accumulateReplcementText qt [] (b\<lparr>m_caseChangeState := CaseChange_UpperNext\<rparr>))
      = b\<lparr>m_finalText := m_finalText b @ toUpper qt x # xs,
           m_caseChangeState := CaseChange_None\<rparr>
   \<and> substitute_backref qt text [(i, i)] 0 s = s"
  by (simp add: segment_defs substitute_backref_def Substring_def)

section \<open>Basic facts about the scanner\<close>

text \<open>
  The scanner is in its literal state when \<open>in_control\<close> is false. \<open>builder.truncate\<close>
  projects the state of the loop to the members of the object.
\<close>

lemma truncate_accumulate:
  "builder.truncate (accumulateReplcementText qt seg s)
     = accumulateReplcementText qt seg (builder.truncate s)"
  by (simp add: segment_defs builder.truncate_def split: CaseChange.splits)

lemma truncate_accumulate_QChar:
  "builder.truncate (accumulateReplcementText_QChar qt c s)
     = accumulateReplcementText_QChar qt c (builder.truncate s)"
  by (simp add: segment_defs builder.truncate_def split: CaseChange.splits)

lemma truncate_trySetCaseChange:
  "builder.truncate (trySetCaseChange m s) = trySetCaseChange m (builder.truncate s)"
  by (simp add: trySetCaseChange_def builder.truncate_def)

lemma in_control_accumulate [simp]:
  "in_control (accumulateReplcementText qt seg s) = in_control s"
  "in_control (accumulateReplcementText_QChar qt c s) = in_control s"
  by (simp_all add: segment_defs split: CaseChange.splits)

lemma m_finalText_truncate [simp]:
  "m_finalText (builder.truncate s) = m_finalText s"
  "m_caseChangeState (builder.truncate s) = m_caseChangeState s"
  by (simp_all add: builder.truncate_def)

lemma locals_init_literal [simp]:
  "\<not> in_control (locals_init b)" "builder.truncate (locals_init b) = b"
  by (simp_all add: locals_init_def builder.extend_def scan.fields_def builder.truncate_def)

lemma truncate_locals [simp]:
  "builder.truncate (s\<lparr>in_control := a\<rparr>) = builder.truncate s"
  "builder.truncate (s\<lparr>control_char := c\<rparr>) = builder.truncate s"
  "builder.truncate (s\<lparr>backref_bracket_start_char := c\<rparr>) = builder.truncate s"
  "builder.truncate (s\<lparr>backref_name := n\<rparr>) = builder.truncate s"
  "builder.truncate (s\<lparr>invalid_control := n\<rparr>) = builder.truncate s"
  "builder.truncate (s\<lparr>control_x_hex := n\<rparr>) = builder.truncate s"
  "builder.truncate (s\<lparr>control_x6_hex := n\<rparr>) = builder.truncate s"
  "builder.truncate (s\<lparr>in_hex6 := a\<rparr>) = builder.truncate s"
  by (simp_all add: builder.truncate_def)

lemma literal_char_scan:
  "\<not> in_control s \<Longrightarrow> c \<noteq> BACKSLASH \<Longrightarrow>
     loop_body qt sre source caps c s = accumulateReplcementText_QChar qt c s"
  by (simp add: loop_body_def)

lemma BuildReplacementText_scan:
  "isValid sre \<Longrightarrow> BACKSLASH \<in> set pattern \<Longrightarrow>
     BuildReplacementText qt obj sre source caps pattern out
       = (let b = builder.truncate (flush_control qt
                    (scan_pattern qt sre source caps pattern (locals_init (resetState obj))))
          in (True, m_finalText b, b))"
  by (simp add: BuildReplacementText_def Let_def)

lemma flush_control_literal [simp]:
  "\<not> in_control s \<Longrightarrow> flush_control qt s = s"
  by (simp add: flush_control_def)

section \<open>Case directives\<close>

text \<open>
  C8: \<open>trySetCaseChange\<close> sets the case mode only when the current mode is
  \<open>CaseChange_None\<close> and does nothing otherwise. Scanned from the literal state, each of
  the controls \<open>\l\<close>, \<open>\L\<close>, \<open>\u\<close>, \<open>\U\<close> is such a request and returns to the
  literal state, and \<open>\E\<close> sets the mode to \<open>CaseChange_None\<close> whatever it was. With a
  lower-casing that maps \<open>W\<close> to \<open>w\<close>, the pattern \<open>\l\uWORD\<close> yields \<open>wORD\<close>.
\<close>

theorem first_case_directive_wins:
  assumes "\<not> in_control s"
    and "\<not> isDigit qt (qc CHR ''l'')" and "\<not> isDigit qt (qc CHR ''L'')"
    and "\<not> isDigit qt (qc CHR ''u'')" and "\<not> isDigit qt (qc CHR ''U'')"
    and "\<not> isDigit qt (qc CHR ''E'')"
    and "isValid sre"
    and "toLower qt (qc CHR ''W'') = qc CHR ''w''"
  shows
    "trySetCaseChange m b
       = (if m_caseChangeState b = CaseChange_None then b\<lparr>m_caseChangeState := m\<rparr> else b)
     \<and> (let s' = scan_pattern qt sre source caps (BACKSLASH # QStr ''l'') s in
          \<not> in_control s'
          \<and> builder.truncate s' = trySetCaseChange CaseChange_LowerNext (builder.truncate s))
     \<and> (let s' = scan_pattern qt sre source caps (BACKSLASH # QStr ''L'') s in
          \<not> in_control s'
          \<and> builder.truncate s' = trySetCaseChange CaseChange_Lower (builder.truncate s))
     \<and> (let s' = scan_pattern qt sre source caps (BACKSLASH # QStr ''u'') s in
          \<not> in_control s'
          \<and> builder.truncate s' = trySetCaseChange CaseChange_UpperNext (builder.truncate s))
     \<and> (let s' = scan_pattern qt sre source caps (BACKSLASH # QStr ''U'') s in
          \<not> in_control s'
          \<and> builder.truncate s' = trySetCaseChange CaseChange_Upper (builder.truncate s))
     \<and> (let s' = scan_pattern qt sre source caps (BACKSLASH # QStr ''E'') s in
          \<not> in_control s'
          \<and> builder.truncate s' = (builder.truncate s)\<lparr>m_caseChangeState := CaseChange_None\<rparr>)
     \<and> BuildReplacementText qt obj sre source caps
          (BACKSLASH # QStr ''l'' @ BACKSLASH # QStr ''uWORD'') out
        = (True, QStr ''wORD'',
           \<lparr>m_finalText = QStr ''wORD'', m_caseChangeState = CaseChange_None\<rparr>)"
proof -
  have a: "trySetCaseChange m b
       = (if m_caseChangeState b = CaseChange_None then b\<lparr>m_caseChangeState := m\<rparr> else b)"
    by (simp add: trySetCaseChange_def)
  have l: "let s' = scan_pattern qt sre source caps (BACKSLASH # QStr ''l'') s in
          \<not> in_control s'
          \<and> builder.truncate s' = trySetCaseChange CaseChange_LowerNext (builder.truncate s)"
    using assms by (simp add: loop_body_def control_start_def trySetCaseChange_def builder.truncate_def Let_def)
  have L: "let s' = scan_pattern qt sre source caps (BACKSLASH # QStr ''L'') s in
          \<not> in_control s'
          \<and> builder.truncate s' = trySetCaseChange CaseChange_Lower (builder.truncate s)"
    using assms by (simp add: loop_body_def control_start_def trySetCaseChange_def builder.truncate_def Let_def)
  have u: "let s' = scan_pattern qt sre source caps (BACKSLASH # QStr ''u'') s in
          \<not> in_control s'
          \<and> builder.truncate s' = trySetCaseChange CaseChange_UpperNext (builder.truncate s)"
    using assms by (simp add: loop_body_def control_start_def trySetCaseChange_def builder.truncate_def Let_def)
  have U: "let s' = scan_pattern qt sre source caps (BACKSLASH # QStr ''U'') s in
          \<not> in_control s'
          \<and> builder.truncate s' = trySetCaseChange CaseChange_Upper (builder.truncate s)"
    using assms by (simp add: loop_body_def control_start_def trySetCaseChange_def builder.truncate_def Let_def)
  have E: "let s' = scan_pattern qt sre source caps (BACKSLASH # QStr ''E'') s in
          \<not> in_control s'
          \<and> builder.truncate s' = (builder.truncate s)\<lparr>m_caseChangeState := CaseChange_None\<rparr>"
    using assms by (simp add: loop_body_def control_start_def builder.truncate_def Let_def)
  have ex: "BuildReplacementText qt obj sre source caps
          (BACKSLASH # QStr ''l'' @ BACKSLASH # QStr ''uWORD'') out
        = (True, QStr ''wORD'',
           \<lparr>m_finalText = QStr ''wORD'', m_caseChangeState = CaseChange_None\<rparr>)"
    using assms by (simp add: build_defs body_defs segment_defs Let_def)
  from a l L u U E ex show ?thesis by blast
qed

theorem first_case_directive_wins_witness:
  "\<not> in_control (locals_init used_builder)
   \<and> \<not> isDigit latin_qt (qc CHR ''l'') \<and> \<not> isDigit latin_qt (qc CHR ''L'')
   \<and> \<not> isDigit latin_qt (qc CHR ''u'') \<and> \<not> isDigit latin_qt (qc CHR ''U'')
   \<and> \<not> isDigit latin_qt (qc CHR ''E'')
   \<and> isValid year_sre
   \<and> toLower latin_qt (qc CHR ''W'') = qc CHR ''w''
   \<and> trySetCaseChange CaseChange_LowerNext used_builder = used_builder
   \<and> builder.truncate (scan_pattern latin_qt year_sre sample_text sample_spans
        (BACKSLASH # QStr ''l'') (locals_init used_builder)) = used_builder
   \<and> builder.truncate (scan_pattern latin_qt year_sre sample_text sample_spans
        (BACKSLASH # QStr ''E'') (locals_init used_builder))
      = \<lparr>m_finalText = QStr ''old'', m_caseChangeState = CaseChange_None\<rparr>
   \<and> BuildReplacementText latin_qt used_builder year_sre sample_text sample_spans
        (BACKSLASH # QStr ''l'' @ BACKSLASH # QStr ''uWORD'') []
      = (True, QStr ''wORD'',
         \<lparr>m_finalText = QStr ''wORD'', m_caseChangeState = CaseChange_None\<rparr>)"
proof -
  have h: "\<not> in_control (locals_init used_builder)"
    "\<not> isDigit latin_qt (qc CHR ''l'')" "\<not> isDigit latin_qt (qc CHR ''L'')"
    "\<not> isDigit latin_qt (qc CHR ''u'')" "\<not> isDigit latin_qt (qc CHR ''U'')"
    "\<not> isDigit latin_qt (qc CHR ''E'')"
    "isValid year_sre"
    "toLower latin_qt (qc CHR ''W'') = qc CHR ''w''"
    by (simp_all add: locals_init_def builder.extend_def scan.fields_def latin_defs year_sre_def)
  have t: "builder.truncate (locals_init used_builder) = used_builder"
    by (simp add: locals_init_def builder.extend_def scan.fields_def builder.truncate_def
        used_builder_def)
  show ?thesis
    using h first_case_directive_wins [OF h, where m = CaseChange_LowerNext
        and b = used_builder and source = sample_text and caps = sample_spans
        and obj = used_builder and out = "[]"]
    by (simp add: Let_def t) (simp add: used_builder_def)
qed

section \<open>Numbered back references\<close>

lemma backref_digit_scan:
  assumes "\<not> in_control s" and "isDigit qt d" and "0 \<le> digitValue qt d"
  shows "\<not> in_control (scan_pattern qt sre source caps [BACKSLASH, d] s)"
    and "builder.truncate (scan_pattern qt sre source caps [BACKSLASH, d] s)
          = accumulateReplcementText qt
              (if digitValue qt d < int (length caps)
               then Substring (fst (caps ! nat (digitValue qt d)))
                      (snd (caps ! nat (digitValue qt d))) source
               else [BACKSLASH, d]) (builder.truncate s)"
  using assms
  by (simp_all add: loop_body_def control_start_def substitute_backref_def
        Let_def truncate_accumulate)

text \<open>
  C4: scanned from the literal state, a backslash and a digit \<open>d\<close> hand one segment to
  \<open>accumulateReplcementText\<close>: the text of capture span \<open>d\<close> when \<open>d\<close> is less than the
  number of spans, the two characters backslash and \<open>d\<close> otherwise. The scanner is back
  in its literal state right after the digit, so a following character \<open>d2\<close> (a second
  digit, say) is an ordinary character: \<open>\12\<close> is group 1 followed by \<open>2\<close>.
\<close>

theorem numbered_backref_single_digit:
  assumes "\<not> in_control s" and "isDigit qt d" and "0 \<le> digitValue qt d"
    and "isValid sre" and "d2 \<noteq> BACKSLASH"
  shows
    "(let s' = scan_pattern qt sre source caps [BACKSLASH, d] s;
          segment =
            (if digitValue qt d < int (length caps)
             then Substring (fst (caps ! nat (digitValue qt d)))
                    (snd (caps ! nat (digitValue qt d))) source
             else [BACKSLASH, d])
      in \<not> in_control s'
         \<and> builder.truncate s' = accumulateReplcementText qt segment (builder.truncate s)
         \<and> builder.truncate (scan_pattern qt sre source caps [BACKSLASH, d, d2] s)
             = accumulateReplcementText_QChar qt d2
                 (accumulateReplcementText qt segment (builder.truncate s))
         \<and> BuildReplacementText qt obj sre source caps [BACKSLASH, d, d2] out
             = (let b = accumulateReplcementText_QChar qt d2
                          (accumulateReplcementText qt segment (resetState obj))
                in (True, m_finalText b, b)))"
proof -
  define segment where "segment =
            (if digitValue qt d < int (length caps)
             then Substring (fst (caps ! nat (digitValue qt d)))
                    (snd (caps ! nat (digitValue qt d))) source
             else [BACKSLASH, d])"
  have two: "\<not> in_control (scan_pattern qt sre source caps [BACKSLASH, d] t)
      \<and> builder.truncate (scan_pattern qt sre source caps [BACKSLASH, d] t)
          = accumulateReplcementText qt segment (builder.truncate t)"
    if "\<not> in_control t" for t
    using backref_digit_scan [OF that assms(2,3), of sre source caps]
    by (simp add: segment_def)
  have three: "scan_pattern qt sre source caps [BACKSLASH, d, d2] t
           = accumulateReplcementText_QChar qt d2
               (scan_pattern qt sre source caps [BACKSLASH, d] t)"
    if "\<not> in_control t" for t
    using two [OF that] literal_char_scan [OF _ assms(5), of
        "scan_pattern qt sre source caps [BACKSLASH, d] t" qt sre source caps]
    by simp
  have tr3: "builder.truncate (scan_pattern qt sre source caps [BACKSLASH, d, d2] t)
           = accumulateReplcementText_QChar qt d2
               (accumulateReplcementText qt segment (builder.truncate t))"
    if "\<not> in_control t" for t
    using two [OF that] unfolding three [OF that] by (simp add: truncate_accumulate_QChar)
  have lit3: "\<not> in_control (scan_pattern qt sre source caps [BACKSLASH, d, d2] t)"
    if "\<not> in_control t" for t
    using two [OF that] unfolding three [OF that] by simp
  have whole: "BuildReplacementText qt obj sre source caps [BACKSLASH, d, d2] out
             = (let b = accumulateReplcementText_QChar qt d2
                          (accumulateReplcementText qt segment (resetState obj))
                in (True, m_finalText b, b))"
    using lit3 [of "locals_init (resetState obj)"] tr3 [of "locals_init (resetState obj)"]
      BuildReplacementText_scan [OF assms(4), of "[BACKSLASH, d, d2]" qt obj source caps out]
    by (simp add: Let_def)
  show ?thesis
    using two [OF assms(1)] tr3 [OF assms(1)] whole
    by (simp only: Let_def segment_def) simp
qed

theorem numbered_backref_single_digit_witness:
  "\<not> in_control (locals_init used_builder)
   \<and> isDigit latin_qt (qc CHR ''1'') \<and> 0 \<le> digitValue latin_qt (qc CHR ''1'')
   \<and> isValid year_sre \<and> qc CHR ''2'' \<noteq> BACKSLASH
   \<and> BuildReplacementText latin_qt used_builder year_sre sample_text sample_spans
        (BACKSLASH # QStr ''12'') []
      = (True, QStr ''20242'',
         \<lparr>m_finalText = QStr ''20242'', m_caseChangeState = CaseChange_None\<rparr>)"
proof -
  have h: "\<not> in_control (locals_init used_builder)"
    "isDigit latin_qt (qc CHR ''1'')" "0 \<le> digitValue latin_qt (qc CHR ''1'')"
    "isValid year_sre" "qc CHR ''2'' \<noteq> BACKSLASH"
    by (simp_all add: latin_defs year_sre_def)
  show ?thesis
    using h numbered_backref_single_digit [OF h, where source = sample_text
        and caps = sample_spans and obj = used_builder and out = "[]"]
    by (simp add: Let_def)
      (simp add: latin_defs sample_defs segment_defs resetState_def Substring_def)
qed

section \<open>Named back references\<close>

lemma backref_open_scan:
  assumes "\<not> in_control s" and "\<not> isDigit qt (qc CHR ''g'')"
    and "opn = qc CHR ''{'' \<or> opn = qc CHR ''<''"
  shows "scan_pattern qt sre source caps [BACKSLASH, qc CHR ''g'', opn] s
          = s\<lparr>invalid_control := [BACKSLASH, qc CHR ''g'', opn], control_char := qc CHR ''g'',
              control_x_hex := [], control_x6_hex := [], in_hex6 := False, in_control := True,
              backref_bracket_start_char := opn, backref_name := []\<rparr>"
  using assms by (cases s) (auto simp add: loop_body_def control_start_def control_g_def Let_def)

lemma backref_name_scan:
  assumes "in_control t" and "control_char t = qc CHR ''g''"
    and "backref_bracket_start_char t = opn"
    and "(opn = qc CHR ''{'' \<and> cls = qc CHR ''}'') \<or> (opn = qc CHR ''<'' \<and> cls = qc CHR ''>'')"
    and "cls \<notin> set name"
  shows "scan_pattern qt sre source caps name t
          = t\<lparr>backref_name := backref_name t @ name,
              invalid_control := invalid_control t @ name\<rparr>"
  using assms
proof (induction name arbitrary: t)
  case Nil
  then show ?case by simp
next
  case (Cons c cs)
  let ?t = "t\<lparr>backref_name := backref_name t @ [c],
               invalid_control := invalid_control t @ [c]\<rparr>"
  have step: "loop_body qt sre source caps c t = ?t"
    using Cons.prems by (cases t) (auto simp add: loop_body_def control_g_def Let_def)
  have rest: "scan_pattern qt sre source caps cs ?t
                = ?t\<lparr>backref_name := backref_name ?t @ cs,
                     invalid_control := invalid_control ?t @ cs\<rparr>"
    using Cons.prems by (intro Cons.IH) simp_all
  show ?case
    by (simp add: step rest)
qed

lemma backref_close_step:
  assumes "in_control t" and "control_char t = qc CHR ''g''"
    and "backref_bracket_start_char t = opn"
    and "(opn = qc CHR ''{'' \<and> cls = qc CHR ''}'') \<or> (opn = qc CHR ''<'' \<and> cls = qc CHR ''>'')"
  shows "loop_body qt sre source caps cls t
          = (substitute_backref qt source caps
               (if toInt qt (backref_name t) \<noteq> 0 \<or> backref_name t = QStr ''0''
                then toInt qt (backref_name t)
                else getCaptureStringNumber sre (backref_name t))
               (t\<lparr>invalid_control := invalid_control t @ [cls]\<rparr>))\<lparr>in_control := False\<rparr>"
  using assms by (auto simp add: loop_body_def control_g_def Let_def)

lemma truncate_substitute_backref:
  "builder.truncate (substitute_backref qt source caps n t)
     = accumulateReplcementText qt
         (if 0 \<le> n \<and> n < int (length caps)
          then Substring (fst (caps ! nat n)) (snd (caps ! nat n)) source
          else invalid_control t) (builder.truncate t)"
  by (simp add: substitute_backref_def truncate_accumulate)

lemma in_control_substitute_backref [simp]:
  "in_control (substitute_backref qt source caps n t) = in_control t"
  by (simp add: substitute_backref_def)

text \<open>
  C5: scanned from the literal state, \<open>\g\<close>, an opening bracket \<open>opn\<close>, a name that does
  not contain the matching closer, and the matching closer \<open>cls\<close> (\<open>}\<close> for \<open>{\<close>,
  \<open>>\<close> for \<open><\<close>; the name may contain the other closer) hand one segment to
  \<open>accumulateReplcementText\<close> and return to the literal state; until the closer the
  scanner stays in the control. The name is parsed by \<open>toInt\<close>; a nonzero result, or the
  name \<open>0\<close>, is the capture index, otherwise \<open>getCaptureStringNumber\<close> gives it. An
  index of a capture span selects the text of that span as the segment; for any other
  index the segment is the whole raw control.
\<close>

theorem named_backref_resolution:
  assumes "\<not> in_control s" and "\<not> isDigit qt (qc CHR ''g'')"
    and "(opn = qc CHR ''{'' \<and> cls = qc CHR ''}'') \<or> (opn = qc CHR ''<'' \<and> cls = qc CHR ''>'')"
    and "cls \<notin> set name"
    and "isValid sre"
  shows
    "(let raw = [BACKSLASH, qc CHR ''g'', opn] @ name @ [cls];
          parsed = toInt qt name;
          index = (if parsed \<noteq> 0 \<or> name = QStr ''0'' then parsed
                   else getCaptureStringNumber sre name);
          segment = (if 0 \<le> index \<and> index < int (length caps)
                     then Substring (fst (caps ! nat index)) (snd (caps ! nat index)) source
                     else raw);
          s' = scan_pattern qt sre source caps raw s
      in in_control (scan_pattern qt sre source caps ([BACKSLASH, qc CHR ''g'', opn] @ name) s)
         \<and> \<not> in_control s'
         \<and> builder.truncate s' = accumulateReplcementText qt segment (builder.truncate s)
         \<and> BuildReplacementText qt obj sre source caps raw out
             = (let b = accumulateReplcementText qt segment (resetState obj)
                in (True, m_finalText b, b)))"
proof -
  define pre where "pre = [BACKSLASH, qc CHR ''g'', opn]"
  define index where "index = (if toInt qt name \<noteq> 0 \<or> name = QStr ''0'' then toInt qt name
                   else getCaptureStringNumber sre name)"
  define segment where "segment = (if 0 \<le> index \<and> index < int (length caps)
                     then Substring (fst (caps ! nat index)) (snd (caps ! nat index)) source
                     else pre @ name @ [cls])"
  have opn: "opn = qc CHR ''{'' \<or> opn = qc CHR ''<''"
    using assms(3) by blast
  have run: "in_control (scan_pattern qt sre source caps (pre @ name) t)
      \<and> \<not> in_control (scan_pattern qt sre source caps (pre @ name @ [cls]) t)
      \<and> builder.truncate (scan_pattern qt sre source caps (pre @ name @ [cls]) t)
          = accumulateReplcementText qt segment (builder.truncate t)"
    if lit: "\<not> in_control t" for t
  proof -
    define t0 where "t0 = scan_pattern qt sre source caps pre t"
    have t0: "t0 = t\<lparr>invalid_control := pre, control_char := qc CHR ''g'',
              control_x_hex := [], control_x6_hex := [], in_hex6 := False, in_control := True,
              backref_bracket_start_char := opn, backref_name := []\<rparr>"
      unfolding t0_def pre_def by (rule backref_open_scan [OF lit assms(2) opn])
    define t1 where "t1 = scan_pattern qt sre source caps name t0"
    have t1: "t1 = t0\<lparr>backref_name := backref_name t0 @ name,
                       invalid_control := invalid_control t0 @ name\<rparr>"
      unfolding t1_def
      by (rule backref_name_scan [OF _ _ _ assms(3,4)]) (simp_all add: t0)
    have facts: "in_control t1" "control_char t1 = qc CHR ''g''"
      "backref_bracket_start_char t1 = opn" "backref_name t1 = name"
      "invalid_control t1 = pre @ name" "builder.truncate t1 = builder.truncate t"
      by (simp_all add: t1 t0)
    have close: "loop_body qt sre source caps cls t1
          = (substitute_backref qt source caps index
               (t1\<lparr>invalid_control := invalid_control t1 @ [cls]\<rparr>))\<lparr>in_control := False\<rparr>"
      using backref_close_step [OF facts(1-3) assms(3), of qt sre source caps]
      by (simp add: facts index_def)
    have split1: "scan_pattern qt sre source caps (pre @ name) t = t1"
      by (simp only: scan_pattern_append t0_def t1_def)
    have split2: "scan_pattern qt sre source caps (pre @ name @ [cls]) t
                    = loop_body qt sre source caps cls t1"
      by (simp only: scan_pattern_append t0_def t1_def scan_pattern.simps)
    show ?thesis
      unfolding split1 split2 close
      by (simp add: facts truncate_substitute_backref segment_def)
  qed
  have bs: "BACKSLASH \<in> set (pre @ name @ [cls])"
    by (simp add: pre_def)
  have whole: "BuildReplacementText qt obj sre source caps (pre @ name @ [cls]) out
             = (let b = accumulateReplcementText qt segment (resetState obj)
                in (True, m_finalText b, b))"
    using run [of "locals_init (resetState obj)"]
    by (simp add: BuildReplacementText_scan [OF assms(5) bs] Let_def)
  show ?thesis
    using run [OF assms(1)] whole
    by (simp only: Let_def pre_def segment_def index_def) simp
qed

theorem named_backref_resolution_witness:
  "\<not> in_control (locals_init used_builder) \<and> \<not> isDigit latin_qt (qc CHR ''g'')
   \<and> ((qc CHR ''{'' = qc CHR ''{'' \<and> qc CHR ''}'' = qc CHR ''}'')
        \<or> (qc CHR ''{'' = qc CHR ''<'' \<and> qc CHR ''}'' = qc CHR ''>''))
   \<and> ((qc CHR ''<'' = qc CHR ''{'' \<and> qc CHR ''>'' = qc CHR ''}'')
        \<or> (qc CHR ''<'' = qc CHR ''<'' \<and> qc CHR ''>'' = qc CHR ''>''))
   \<and> qc CHR ''}'' \<notin> set (QStr ''year'') \<and> qc CHR ''>'' \<notin> set (QStr ''7}'')
   \<and> isValid year_sre
   \<and> BuildReplacementText latin_qt used_builder year_sre sample_text sample_spans
        (BACKSLASH # QStr ''g{year}'') []
      = (True, QStr ''2024'',
         \<lparr>m_finalText = QStr ''2024'', m_caseChangeState = CaseChange_None\<rparr>)
   \<and> BuildReplacementText latin_qt used_builder year_sre sample_text sample_spans
        (BACKSLASH # QStr ''g<7}>'') []
      = (True, BACKSLASH # QStr ''g<7}>'',
         \<lparr>m_finalText = BACKSLASH # QStr ''g<7}>'', m_caseChangeState = CaseChange_None\<rparr>)"
proof -
  have h: "\<not> in_control (locals_init used_builder)" "\<not> isDigit latin_qt (qc CHR ''g'')"
    by (simp_all add: latin_defs)
  have b: "(qc CHR ''{'' = qc CHR ''{'' \<and> qc CHR ''}'' = qc CHR ''}'')
        \<or> (qc CHR ''{'' = qc CHR ''<'' \<and> qc CHR ''}'' = qc CHR ''>'')"
    "qc CHR ''}'' \<notin> set (QStr ''year'')"
    by simp_all
  have a: "(qc CHR ''<'' = qc CHR ''{'' \<and> qc CHR ''>'' = qc CHR ''}'')
        \<or> (qc CHR ''<'' = qc CHR ''<'' \<and> qc CHR ''>'' = qc CHR ''>'')"
    "qc CHR ''>'' \<notin> set (QStr ''7}'')"
    by simp_all
  have v: "isValid year_sre"
    by (simp add: year_sre_def)
  note t = named_backref_resolution [where source = sample_text
        and caps = sample_spans and obj = used_builder and out = "[]"]
  show ?thesis
    using h a b v t [OF h b v] t [OF h a v]
    by (simp add: Let_def)
      (simp add: latin_defs sample_defs segment_defs resetState_def Substring_def)
qed

section \<open>Hexadecimal escapes in braces\<close>

lemma hex_digit_le: "is_hex a \<Longrightarrow> hex_digit a \<le> 15"
  by (auto simp add: is_hex_def hex_digit_def word_le_nat_alt)

lemma hex_value_snoc: "hex_value (s @ [a]) = 16 * hex_value s + hex_digit a"
  by (simp add: hex_value_def)

lemma hex_value_bound: "list_all is_hex s \<Longrightarrow> hex_value s < 16 ^ length s"
proof (induction s rule: rev_induct)
  case Nil
  then show ?case by (simp add: hex_value_def)
next
  case (snoc a s)
  then have "hex_value s < 16 ^ length s" and "hex_digit a \<le> 15"
    by (simp_all add: hex_digit_le)
  then show ?case
    by (simp add: hex_value_snoc)
qed

lemma toUInt16_hex:
  assumes "list_all is_hex s" and "s \<noteq> []" and "length s \<le> 6"
  shows "toUInt16 s = hex_value s"
proof -
  have "hex_value s < 16 ^ length s"
    using assms(1) by (rule hex_value_bound)
  also have "(16::nat) ^ length s \<le> 16 ^ 6"
    using assms(3) by (intro power_increasing) simp_all
  finally show ?thesis
    using assms(1,2) by (simp add: toUInt16_def)
qed

lemma IsValidHex6_iff:
  "IsValidHex6 hv
     = (list_all is_hex hv
        \<and> (if length hv = 6 then take 1 hv = QStr ''0'' \<or> take 2 hv = QStr ''10''
           else length hv = 2 \<or> length hv = 4))"
  by (auto simp add: IsValidHex6_def left_def Let_def)

lemma hex_value_pair: "hex_value [a, b] = 16 * hex_digit a + hex_digit b"
  by (simp add: hex_value_def)

lemma plane_bound:
  assumes "IsValidHex6 hv" and "length hv = 6"
  shows "hex_value (take 2 hv) * 65536 + hex_value (drop 2 hv) \<le> 0x10FFFF"
proof -
  obtain a b rest where hv: "hv = a # b # rest" and rest: "length rest = 4"
    using assms(2) by (cases hv; cases "tl hv") auto
  have hex: "is_hex a" "is_hex b" "list_all is_hex rest"
    using assms(1) by (simp_all add: IsValidHex6_iff hv)
  have r: "hex_value rest < 65536"
    using hex_value_bound [OF hex(3)] by (simp add: rest)
  have p: "hex_value [a, b] \<le> 16"
  proof (cases "a = qc CHR ''0''")
    case True
    then show ?thesis
      using hex_digit_le [OF hex(2)] by (simp add: hex_value_pair hex_digit_def)
  next
    case False
    then have "a = qc CHR ''1''" "b = qc CHR ''0''"
      using assms by (simp_all add: IsValidHex6_iff hv)
    then show ?thesis
      by (simp add: hex_value_pair hex_digit_def)
  qed
  have "hex_value [a, b] * 65536 \<le> 16 * 65536"
    using p by (rule mult_le_mono1)
  then show ?thesis
    using r by (simp add: hv)
qed

lemma short_hex_bound:
  assumes "list_all is_hex hv" and "length hv \<le> 4"
  shows "hex_value hv < 65536"
proof -
  have "hex_value hv < 16 ^ length hv"
    using assms(1) by (rule hex_value_bound)
  also have "(16::nat) ^ length hv \<le> 16 ^ 4"
    using assms(2) by (intro power_increasing) simp_all
  finally show ?thesis by simp
qed

lemma unat_QChar_of_uint: "v < 65536 \<Longrightarrow> unat (QChar_of_uint v) = v"
  by (simp add: QChar_of_uint_def unat_of_nat)

lemma is_hex_not_brace [simp]:
  "\<not> is_hex 0x7B" "\<not> is_hex 0x7D"
  by (simp_all add: is_hex_def)

lemma hex_open_scan:
  assumes "\<not> in_control s" and "\<not> isDigit qt (qc CHR ''x'')"
  shows "scan_pattern qt sre source caps (BACKSLASH # QStr ''x{'') s
          = s\<lparr>invalid_control := BACKSLASH # QStr ''x{'', control_char := qc CHR ''x'',
              control_x_hex := [], control_x6_hex := [], in_hex6 := True, in_control := True\<rparr>"
  using assms by (cases s) (simp add: loop_body_def control_start_def control_x_def Let_def)

lemma hex6_digits_scan:
  assumes "in_control t" and "control_char t = qc CHR ''x''" and "in_hex6 t"
    and "list_all is_hex ds"
  shows "scan_pattern qt sre source caps ds t
          = t\<lparr>control_x6_hex := control_x6_hex t @ ds,
              invalid_control := invalid_control t @ ds\<rparr>"
  using assms
proof (induction ds arbitrary: t)
  case Nil
  then show ?case by simp
next
  case (Cons c cs)
  let ?t = "t\<lparr>control_x6_hex := control_x6_hex t @ [c],
               invalid_control := invalid_control t @ [c]\<rparr>"
  have "is_hex c"
    using Cons.prems by simp
  then have step: "loop_body qt sre source caps c t = ?t"
    using Cons.prems by (cases t) (auto simp add: loop_body_def control_x_def Let_def)
  have rest: "scan_pattern qt sre source caps cs ?t
                = ?t\<lparr>control_x6_hex := control_x6_hex ?t @ cs,
                     invalid_control := invalid_control ?t @ cs\<rparr>"
    using Cons.prems by (intro Cons.IH) simp_all
  show ?case
    by (simp add: step rest)
qed

lemma hex6_close_step:
  assumes "in_control t" and "control_char t = qc CHR ''x''" and "in_hex6 t"
  shows "builder.truncate (loop_body qt sre source caps (qc CHR ''}'') t)
          = (if IsValidHex6 (control_x6_hex t) then
               (if length (control_x6_hex t) = 6 then
                  accumulateReplcementText qt
                    (fromUcs4 qt ((65536 * toUInt16 (left 2 (control_x6_hex t))
                                   + toUInt16 (right 4 (control_x6_hex t))) mod 2 ^ 32))
                    (builder.truncate t)
                else
                  accumulateReplcementText_QChar qt
                    (QChar_of_uint (toUInt16 (control_x6_hex t))) (builder.truncate t))
             else accumulateReplcementText qt (invalid_control t @ [qc CHR ''}''])
                    (builder.truncate t))"
    and "\<not> in_control (loop_body qt sre source caps (qc CHR ''}'') t)"
  using assms
  by (auto simp add: loop_body_def control_x_def Let_def truncate_accumulate
      truncate_accumulate_QChar IsValidHex6_iff)

lemma hex6_abort_step:
  assumes "in_control t" and "control_char t = qc CHR ''x''" and "in_hex6 t"
    and "\<not> is_hex c" and "c \<noteq> qc CHR ''}''"
  shows "builder.truncate (loop_body qt sre source caps c t)
          = accumulateReplcementText qt (invalid_control t @ [c]) (builder.truncate t)"
    and "\<not> in_control (loop_body qt sre source caps c t)"
  using assms
  by (auto simp add: loop_body_def control_x_def Let_def truncate_accumulate)

lemma truncate_flush_control:
  "builder.truncate (flush_control qt t)
     = (if in_control t then accumulateReplcementText qt (invalid_control t) (builder.truncate t)
        else builder.truncate t)"
  by (simp add: flush_control_def truncate_accumulate)

text \<open>
  C6: \<open>IsValidHex6\<close> accepts exactly the strings of hexadecimal digits of length 2, 4 or
  6 whose first character, at length 6, is \<open>0\<close> or whose first two are \<open>10\<close>. Scanned
  from the literal state, \<open>\x{\<close>, hexadecimal digits \<open>ds\<close> and \<open>}\<close> return to the
  literal state with one segment: for valid \<open>ds\<close> of length 2 or 4 the code unit of that
  value, for valid \<open>ds\<close> of length 6 the code point \<open>plane * 65536 + remainder\<close>, the
  plane being the first two digits and the remainder the last four; the value never
  exceeds \<open>0x10FFFF\<close>. Digits that are not valid give the raw control as the segment,
  and so does a character \<open>c\<close> other than a hexadecimal digit or \<open>}\<close> in the braces, and
  so does the end of the pattern.
\<close>

theorem braced_hex_escape:
  assumes "\<not> in_control s" and "\<not> isDigit qt (qc CHR ''x'')" and "list_all is_hex ds"
    and "\<not> is_hex c" and "c \<noteq> qc CHR ''}''" and "isValid sre"
  shows
    "IsValidHex6 hv
       = (list_all is_hex hv
          \<and> (if length hv = 6 then take 1 hv = QStr ''0'' \<or> take 2 hv = QStr ''10''
             else length hv = 2 \<or> length hv = 4))
     \<and> (let lead = BACKSLASH # QStr ''x{'';
             raw = lead @ ds @ QStr ''}'';
             code = (if length ds = 6
                     then hex_value (take 2 ds) * 65536 + hex_value (drop 2 ds)
                     else hex_value ds);
             emit = (if IsValidHex6 ds then
                       (if length ds = 6 then accumulateReplcementText qt (fromUcs4 qt code)
                        else accumulateReplcementText_QChar qt (QChar_of_uint code))
                     else accumulateReplcementText qt raw);
             s' = scan_pattern qt sre source caps raw s;
             aborted = scan_pattern qt sre source caps (lead @ ds @ [c]) s;
             pending = scan_pattern qt sre source caps (lead @ ds) s
         in \<not> in_control s'
            \<and> builder.truncate s' = emit (builder.truncate s)
            \<and> (IsValidHex6 ds \<longrightarrow> code \<le> 0x10FFFF)
            \<and> (IsValidHex6 ds \<and> length ds \<noteq> 6 \<longrightarrow> unat (QChar_of_uint code) = code)
            \<and> BuildReplacementText qt obj sre source caps raw out
                = (let b = emit (resetState obj) in (True, m_finalText b, b))
            \<and> \<not> in_control aborted
            \<and> builder.truncate aborted
                = accumulateReplcementText qt (lead @ ds @ [c]) (builder.truncate s)
            \<and> in_control pending
            \<and> builder.truncate (flush_control qt pending)
                = accumulateReplcementText qt (lead @ ds) (builder.truncate s)
            \<and> BuildReplacementText qt obj sre source caps (lead @ ds) out
                = (let b = accumulateReplcementText qt (lead @ ds) (resetState obj)
                   in (True, m_finalText b, b)))"
proof -
  define lead where "lead = BACKSLASH # QStr ''x{''"
  define code where "code = (if length ds = 6
                     then hex_value (take 2 ds) * 65536 + hex_value (drop 2 ds)
                     else hex_value ds)"
  define emit :: "builder \<Rightarrow> builder" where "emit = (if IsValidHex6 ds then
                       (if length ds = 6 then accumulateReplcementText qt (fromUcs4 qt code)
                        else accumulateReplcementText_QChar qt (QChar_of_uint code))
                     else accumulateReplcementText qt (lead @ ds @ QStr ''}''))"
  have bound: "code \<le> 0x10FFFF" if "IsValidHex6 ds"
  proof (cases "length ds = 6")
    case True
    then show ?thesis
      using plane_bound [OF that] by (simp add: code_def)
  next
    case False
    then have "length ds \<le> 4"
      using that by (auto simp add: IsValidHex6_iff)
    then show ?thesis
      using short_hex_bound [OF assms(3)] False by (simp add: code_def)
  qed
  have unit: "unat (QChar_of_uint code) = code" if "IsValidHex6 ds" "length ds \<noteq> 6"
  proof -
    have "length ds \<le> 4"
      using that by (auto simp add: IsValidHex6_iff)
    then show ?thesis
      using short_hex_bound [OF assms(3)] that(2)
      by (simp add: code_def unat_QChar_of_uint)
  qed
  have decode6: "(65536 * toUInt16 (left 2 ds) + toUInt16 (right 4 ds)) mod 2 ^ 32 = code"
    if v: "IsValidHex6 ds" and l: "length ds = 6"
  proof -
    have h: "list_all is_hex (take 2 ds)" "list_all is_hex (drop 2 ds)"
      using assms(3) by (auto simp add: list_all_iff dest: in_set_takeD in_set_dropD)
    have n: "take 2 ds \<noteq> []" "drop 2 ds \<noteq> []"
      using l by auto
    have b: "length (take 2 ds) \<le> 6" "length (drop 2 ds) \<le> 6"
      using l by simp_all
    have "toUInt16 (take 2 ds) = hex_value (take 2 ds)"
      "toUInt16 (drop 2 ds) = hex_value (drop 2 ds)"
      by (rule toUInt16_hex [OF h(1) n(1) b(1)], rule toUInt16_hex [OF h(2) n(2) b(2)])
    then show ?thesis
      using bound [OF v] l by (simp add: left_def right_def code_def mult.commute)
  qed
  have decode4: "toUInt16 ds = code" if v: "IsValidHex6 ds" and l: "length ds \<noteq> 6"
  proof -
    have "length ds \<le> 6" "ds \<noteq> []"
      using v by (auto simp add: IsValidHex6_iff split: if_splits)
    then show ?thesis
      using l by (simp add: toUInt16_hex [OF assms(3)] code_def)
  qed
  have run: "\<not> in_control (scan_pattern qt sre source caps (lead @ ds @ QStr ''}'') t)
      \<and> builder.truncate (scan_pattern qt sre source caps (lead @ ds @ QStr ''}'') t)
          = emit (builder.truncate t)
      \<and> \<not> in_control (scan_pattern qt sre source caps (lead @ ds @ [c]) t)
      \<and> builder.truncate (scan_pattern qt sre source caps (lead @ ds @ [c]) t)
          = accumulateReplcementText qt (lead @ ds @ [c]) (builder.truncate t)
      \<and> in_control (scan_pattern qt sre source caps (lead @ ds) t)
      \<and> builder.truncate (flush_control qt (scan_pattern qt sre source caps (lead @ ds) t))
          = accumulateReplcementText qt (lead @ ds) (builder.truncate t)"
    if lit: "\<not> in_control t" for t
  proof -
    define t0 where "t0 = scan_pattern qt sre source caps lead t"
    have t0: "t0 = t\<lparr>invalid_control := lead, control_char := qc CHR ''x'',
              control_x_hex := [], control_x6_hex := [], in_hex6 := True, in_control := True\<rparr>"
      unfolding t0_def lead_def by (rule hex_open_scan [OF lit assms(2)])
    define t1 where "t1 = scan_pattern qt sre source caps ds t0"
    have t1: "t1 = t0\<lparr>control_x6_hex := control_x6_hex t0 @ ds,
                       invalid_control := invalid_control t0 @ ds\<rparr>"
      unfolding t1_def
      by (rule hex6_digits_scan [OF _ _ _ assms(3)]) (simp_all add: t0)
    have facts: "in_control t1" "control_char t1 = qc CHR ''x''" "in_hex6 t1"
      "control_x6_hex t1 = ds" "invalid_control t1 = lead @ ds"
      "builder.truncate t1 = builder.truncate t"
      by (simp_all add: t1 t0)
    have split0: "scan_pattern qt sre source caps (lead @ ds) t = t1"
      by (simp only: scan_pattern_append t0_def t1_def)
    have split1: "scan_pattern qt sre source caps (lead @ ds @ [x]) t
                    = loop_body qt sre source caps x t1" for x
      by (simp only: scan_pattern_append t0_def t1_def scan_pattern.simps)
    have closed: "builder.truncate (loop_body qt sre source caps (qc CHR ''}'') t1)
                    = emit (builder.truncate t)"
      unfolding hex6_close_step(1) [OF facts(1-3)]
      using decode6 decode4 by (simp add: facts emit_def)
    show ?thesis
      using split1 [of "qc CHR ''}''"] closed
        hex6_close_step(2) [OF facts(1-3), of qt sre source caps]
        hex6_abort_step [OF facts(1-3) assms(4,5), of qt sre source caps]
      by (simp add: split0 split1 [of c] facts truncate_flush_control)
  qed
  have bs: "BACKSLASH \<in> set (lead @ ds @ QStr ''}'')" "BACKSLASH \<in> set (lead @ ds)"
    by (simp_all add: lead_def)
  have whole: "BuildReplacementText qt obj sre source caps (lead @ ds @ QStr ''}'') out
                = (let b = emit (resetState obj) in (True, m_finalText b, b))"
    unfolding BuildReplacementText_scan [OF assms(6) bs(1)]
    using run [of "locals_init (resetState obj)"] by (simp add: Let_def)
  have whole_pending: "BuildReplacementText qt obj sre source caps (lead @ ds) out
                = (let b = accumulateReplcementText qt (lead @ ds) (resetState obj)
                   in (True, m_finalText b, b))"
    unfolding BuildReplacementText_scan [OF assms(6) bs(2)]
    using run [of "locals_init (resetState obj)"] by (simp add: Let_def)
  show ?thesis
    using run [OF assms(1)] whole whole_pending bound unit
    by (simp only: Let_def lead_def [symmetric] code_def [symmetric] emit_def [symmetric]
        IsValidHex6_iff [of hv]) simp
qed

theorem braced_hex_escape_witness:
  "\<not> in_control (locals_init used_builder) \<and> \<not> isDigit latin_qt (qc CHR ''x'')
   \<and> list_all is_hex (QStr ''10FFFD'') \<and> list_all is_hex (QStr ''263A'')
   \<and> list_all is_hex (QStr ''110000'')
   \<and> \<not> is_hex (qc CHR ''g'') \<and> qc CHR ''g'' \<noteq> qc CHR ''}'' \<and> isValid year_sre
   \<and> IsValidHex6 (QStr ''10FFFD'') \<and> IsValidHex6 (QStr ''263A'')
   \<and> \<not> IsValidHex6 (QStr ''110000'')
   \<and> BuildReplacementText latin_qt used_builder year_sre sample_text sample_spans
        (BACKSLASH # QStr ''x{10FFFD}'') []
      = (True, [0xDBFF, 0xDFFD],
         \<lparr>m_finalText = [0xDBFF, 0xDFFD], m_caseChangeState = CaseChange_None\<rparr>)
   \<and> BuildReplacementText latin_qt used_builder year_sre sample_text sample_spans
        (BACKSLASH # QStr ''x{263A}'') []
      = (True, [0x263A],
         \<lparr>m_finalText = [0x263A], m_caseChangeState = CaseChange_None\<rparr>)
   \<and> BuildReplacementText latin_qt used_builder year_sre sample_text sample_spans
        (BACKSLASH # QStr ''x{110000}'') []
      = (True, BACKSLASH # QStr ''x{110000}'',
         \<lparr>m_finalText = BACKSLASH # QStr ''x{110000}'',
            m_caseChangeState = CaseChange_None\<rparr>)
   \<and> BuildReplacementText latin_qt used_builder year_sre sample_text sample_spans
        (BACKSLASH # QStr ''x{263A'') []
      = (True, BACKSLASH # QStr ''x{263A'',
         \<lparr>m_finalText = BACKSLASH # QStr ''x{263A'', m_caseChangeState = CaseChange_None\<rparr>)"
proof -
  have h: "\<not> in_control (locals_init used_builder)" "\<not> isDigit latin_qt (qc CHR ''x'')"
    by (simp_all add: latin_defs)
  have d: "list_all is_hex (QStr ''10FFFD'')" "list_all is_hex (QStr ''263A'')"
    "list_all is_hex (QStr ''110000'')"
    by (simp_all add: is_hex_def)
  have c: "\<not> is_hex (qc CHR ''g'')" "qc CHR ''g'' \<noteq> qc CHR ''}''" "isValid year_sre"
    by (simp_all add: is_hex_def year_sre_def)
  have v: "IsValidHex6 (QStr ''10FFFD'')" "IsValidHex6 (QStr ''263A'')"
    "\<not> IsValidHex6 (QStr ''110000'')"
    by (simp_all add: IsValidHex6_def left_def is_hex_def)
  note t = braced_hex_escape [where source = sample_text and caps = sample_spans
      and obj = used_builder and out = "[]" and hv = "[]"]
  show ?thesis
    using h d c v t [OF h d(1) c] t [OF h d(2) c] t [OF h d(3) c]
    by (simp add: Let_def)
      (simp add: hex_value_def hex_digit_def QChar_of_uint_def latin_defs segment_defs
        resetState_def)
qed

section \<open>Controls that the pattern does not terminate\<close>

text \<open>
  While the scanner stays in a control it appends each character to \<open>invalid_control\<close>
  and leaves the object alone; it enters a control only on a backslash.
\<close>

lemma control_start_continues:
  "in_control (control_start qt source caps c s) \<longrightarrow>
     invalid_control (control_start qt source caps c s) = invalid_control s
     \<and> builder.truncate (control_start qt source caps c s) = builder.truncate s"
  by (simp add: control_start_def Let_def)

lemma control_g_continues:
  "in_control (control_g qt sre source caps c s) \<longrightarrow>
     invalid_control (control_g qt sre source caps c s) = invalid_control s
     \<and> builder.truncate (control_g qt sre source caps c s) = builder.truncate s"
  by (simp add: control_g_def Let_def)

lemma control_x_continues:
  "in_control (control_x qt c s) \<longrightarrow>
     invalid_control (control_x qt c s) = invalid_control s
     \<and> builder.truncate (control_x qt c s) = builder.truncate s"
  by (simp add: control_x_def Let_def)

lemma control_continues:
  assumes "in_control s" and "in_control (loop_body qt sre source caps c s)"
  shows "invalid_control (loop_body qt sre source caps c s) = invalid_control s @ [c]"
    and "builder.truncate (loop_body qt sre source caps c s) = builder.truncate s"
  using assms
    control_start_continues [of qt source caps c "s\<lparr>invalid_control := invalid_control s @ [c]\<rparr>"]
    control_g_continues [of qt sre source caps c "s\<lparr>invalid_control := invalid_control s @ [c]\<rparr>"]
    control_x_continues [of qt c "s\<lparr>invalid_control := invalid_control s @ [c]\<rparr>"]
  by (auto simp add: loop_body_def Let_def split: if_splits)

lemma control_begins:
  assumes "\<not> in_control s" and "in_control (loop_body qt sre source caps c s)"
  shows "c = BACKSLASH"
    and "invalid_control (loop_body qt sre source caps c s) = [BACKSLASH]"
    and "builder.truncate (loop_body qt sre source caps c s) = builder.truncate s"
  using assms
  by (auto simp add: loop_body_def split: if_splits)

lemma scan_pattern_snoc:
  "scan_pattern qt sre source caps (p @ [c]) s
     = loop_body qt sre source caps c (scan_pattern qt sre source caps p s)"
  by (simp add: scan_pattern_append)

lemma open_control_origin:
  assumes "in_control (scan_pattern qt sre source caps p s0)" and "\<not> in_control s0"
  shows "\<exists>pre suf. p = pre @ BACKSLASH # suf
           \<and> \<not> in_control (scan_pattern qt sre source caps pre s0)
           \<and> (\<forall>k\<le>length suf.
                 in_control (scan_pattern qt sre source caps (pre @ BACKSLASH # take k suf) s0))
           \<and> invalid_control (scan_pattern qt sre source caps p s0) = BACKSLASH # suf
           \<and> builder.truncate (scan_pattern qt sre source caps p s0)
               = builder.truncate (scan_pattern qt sre source caps pre s0)"
  using assms
proof (induction p rule: rev_induct)
  case Nil
  then show ?case by simp
next
  case (snoc c p)
  let ?run = "\<lambda>q. scan_pattern qt sre source caps q s0"
  have after: "in_control (loop_body qt sre source caps c (?run p))"
    using snoc.prems(1) by (simp only: scan_pattern_snoc)
  show ?case
  proof (cases "in_control (?run p)")
    case True
    then obtain pre suf where p: "p = pre @ BACKSLASH # suf"
      and lit: "\<not> in_control (?run pre)"
      and still: "\<forall>k\<le>length suf. in_control (?run (pre @ BACKSLASH # take k suf))"
      and buf: "invalid_control (?run p) = BACKSLASH # suf"
      and obj: "builder.truncate (?run p) = builder.truncate (?run pre)"
      using snoc.IH snoc.prems(2) by blast
    have 1: "p @ [c] = pre @ BACKSLASH # (suf @ [c])"
      by (simp add: p)
    have 2: "in_control (?run (pre @ BACKSLASH # take k (suf @ [c])))"
      if "k \<le> length (suf @ [c])" for k
    proof (cases "k \<le> length suf")
      case True
      then show ?thesis using still by simp
    next
      case False
      then have "take k (suf @ [c]) = suf @ [c]"
        using that by simp
      then show ?thesis
        using snoc.prems(1) by (simp add: p)
    qed
    have 3: "invalid_control (?run (p @ [c])) = BACKSLASH # (suf @ [c])"
      using control_continues(1) [OF True after] by (simp only: scan_pattern_snoc buf) simp
    have 4: "builder.truncate (?run (p @ [c])) = builder.truncate (?run pre)"
      using control_continues(2) [OF True after] by (simp only: scan_pattern_snoc obj)
    from 1 lit 2 3 4 show ?thesis by blast
  next
    case False
    have c: "c = BACKSLASH"
      using control_begins(1) [OF False after] .
    have 1: "p @ [c] = p @ BACKSLASH # []"
      by (simp add: c)
    have 2: "\<forall>k\<le>length ([]::QString). in_control (?run (p @ BACKSLASH # take k []))"
      using snoc.prems(1) by (simp add: c)
    have 3: "invalid_control (?run (p @ [c])) = BACKSLASH # []"
      using control_begins(2) [OF False after] by (simp only: scan_pattern_snoc)
    have 4: "builder.truncate (?run (p @ [c])) = builder.truncate (?run p)"
      using control_begins(3) [OF False after] by (simp only: scan_pattern_snoc)
    from 1 False 2 3 4 show ?thesis by blast
  qed
qed

text \<open>
  C9: when the loop ends inside a control, \<open>invalid_control\<close> is handed to
  \<open>accumulateReplcementText\<close> as one segment. That buffer is the part of the pattern
  from the backslash that began the control to the end of the pattern: the pattern
  splits into a prefix after which the scanner is in its literal state, that backslash,
  and a rest throughout which the scanner stays in the control; the object is as it
  was after the prefix. The pattern \<open>\g{year\<close> yields the text \<open>\g{year\<close>.
\<close>

theorem unterminated_control_flushed:
  assumes "isValid sre"
    and "in_control (scan_pattern qt sre source caps pattern (locals_init (resetState obj)))"
    and "\<not> isDigit qt (qc CHR ''g'')"
  shows
    "(let start = locals_init (resetState obj);
          final = scan_pattern qt sre source caps pattern start
      in BuildReplacementText qt obj sre source caps pattern out
           = (let b = accumulateReplcementText qt (invalid_control final)
                        (builder.truncate final)
              in (True, m_finalText b, b))
         \<and> (\<exists>pre suf. pattern = pre @ BACKSLASH # suf
               \<and> \<not> in_control (scan_pattern qt sre source caps pre start)
               \<and> (\<forall>k\<le>length suf.
                     in_control
                       (scan_pattern qt sre source caps (pre @ BACKSLASH # take k suf) start))
               \<and> invalid_control final = BACKSLASH # suf
               \<and> builder.truncate final
                   = builder.truncate (scan_pattern qt sre source caps pre start))
         \<and> BuildReplacementText qt obj sre source caps (BACKSLASH # QStr ''g{year'') out
             = (True, BACKSLASH # QStr ''g{year'',
                \<lparr>m_finalText = BACKSLASH # QStr ''g{year'',
                   m_caseChangeState = CaseChange_None\<rparr>))"
proof -
  define start where "start = locals_init (resetState obj)"
  define final where "final = scan_pattern qt sre source caps pattern start"
  have fin: "in_control final"
    using assms(2) by (simp add: final_def start_def)
  have origin: "\<exists>pre suf. pattern = pre @ BACKSLASH # suf
               \<and> \<not> in_control (scan_pattern qt sre source caps pre start)
               \<and> (\<forall>k\<le>length suf.
                     in_control
                       (scan_pattern qt sre source caps (pre @ BACKSLASH # take k suf) start))
               \<and> invalid_control final = BACKSLASH # suf
               \<and> builder.truncate final
                   = builder.truncate (scan_pattern qt sre source caps pre start)"
    unfolding final_def
    by (rule open_control_origin) (use fin in \<open>simp_all add: final_def start_def\<close>)
  then have bs: "BACKSLASH \<in> set pattern"
    by auto
  have whole: "BuildReplacementText qt obj sre source caps pattern out
           = (let b = accumulateReplcementText qt (invalid_control final)
                        (builder.truncate final)
              in (True, m_finalText b, b))"
    unfolding BuildReplacementText_scan [OF assms(1) bs]
    using fin by (simp add: truncate_flush_control final_def start_def)
  have year: "BuildReplacementText qt obj sre source caps (BACKSLASH # QStr ''g{year'') out
             = (True, BACKSLASH # QStr ''g{year'',
                \<lparr>m_finalText = BACKSLASH # QStr ''g{year'',
                   m_caseChangeState = CaseChange_None\<rparr>)"
    using assms(1,3) by (simp add: build_defs body_defs segment_defs Let_def)
  show ?thesis
    using whole origin year
    by (simp only: Let_def start_def [symmetric] final_def [symmetric])
qed

theorem unterminated_control_flushed_witness:
  "isValid year_sre
   \<and> in_control (scan_pattern latin_qt year_sre sample_text sample_spans
        (QStr ''ab'' @ BACKSLASH # QStr ''n'' @ BACKSLASH # QStr ''x{12'')
        (locals_init (resetState used_builder)))
   \<and> \<not> isDigit latin_qt (qc CHR ''g'')
   \<and> BuildReplacementText latin_qt used_builder year_sre sample_text sample_spans
        (QStr ''ab'' @ BACKSLASH # QStr ''n'' @ BACKSLASH # QStr ''x{12'') []
      = (True, QStr ''ab'' @ 0x0A # BACKSLASH # QStr ''x{12'',
         \<lparr>m_finalText = QStr ''ab'' @ 0x0A # BACKSLASH # QStr ''x{12'',
            m_caseChangeState = CaseChange_None\<rparr>)
   \<and> BuildReplacementText latin_qt used_builder year_sre sample_text sample_spans
        (BACKSLASH # QStr ''g{year'') []
      = (True, BACKSLASH # QStr ''g{year'',
         \<lparr>m_finalText = BACKSLASH # QStr ''g{year'', m_caseChangeState = CaseChange_None\<rparr>)"
proof -
  have h: "isValid year_sre"
    "in_control (scan_pattern latin_qt year_sre sample_text sample_spans
        (QStr ''ab'' @ BACKSLASH # QStr ''n'' @ BACKSLASH # QStr ''x{12'')
        (locals_init (resetState used_builder)))"
    "\<not> isDigit latin_qt (qc CHR ''g'')"
    by (simp_all add: year_sre_def latin_defs build_defs body_defs segment_defs is_hex_def
        Let_def)
  have "BuildReplacementText latin_qt used_builder year_sre sample_text sample_spans
        (QStr ''ab'' @ BACKSLASH # QStr ''n'' @ BACKSLASH # QStr ''x{12'') []
      = (True, QStr ''ab'' @ 0x0A # BACKSLASH # QStr ''x{12'',
         \<lparr>m_finalText = QStr ''ab'' @ 0x0A # BACKSLASH # QStr ''x{12'',
            m_caseChangeState = CaseChange_None\<rparr>)
   \<and> BuildReplacementText latin_qt used_builder year_sre sample_text sample_spans
        (BACKSLASH # QStr ''g{year'') []
      = (True, BACKSLASH # QStr ''g{year'',
         \<lparr>m_finalText = BACKSLASH # QStr ''g{year'', m_caseChangeState = CaseChange_None\<rparr>)"
    using unterminated_control_flushed [OF h, of "[]"]
    by (simp add: Let_def)
      (simp add: latin_defs build_defs body_defs segment_defs is_hex_def Let_def)
  with h show ?thesis by blast
qed

section \<open>Control characters that are not recognised\<close>

text \<open>
  A character \<open>c\<close> after the backslash that no branch of the first-character chain
  accepts is only stored in \<open>control_char\<close>: the scanner stays in the control and hands
  nothing to \<open>accumulateReplcementText\<close>. The next character \<open>c2\<close>, whatever it is,
  reaches the branch for an invalid control, which puts the three characters into the
  text and returns to the literal state.
\<close>

lemma unrecognized_control_pending:
  assumes "\<not> in_control s" and "\<not> isDigit qt c" and "c \<noteq> 0"
    and "c \<notin> set (BACKSLASH # QStr ''abfnrtvEglLuUx'')"
  shows "in_control (scan_pattern qt sre source caps [BACKSLASH, c] s)"
    and "builder.truncate (scan_pattern qt sre source caps [BACKSLASH, c] s)
           = builder.truncate s"
    and "\<not> in_control (scan_pattern qt sre source caps [BACKSLASH, c, c2] s)"
    and "builder.truncate (scan_pattern qt sre source caps [BACKSLASH, c, c2] s)
           = accumulateReplcementText qt [BACKSLASH, c, c2] (builder.truncate s)"
  using assms
  by (simp_all add: loop_body_def control_start_def Let_def truncate_accumulate)

text \<open>
  C1: on the pattern \<open>\q\n\<close> the builder returns the four characters \<open>\q\n\<close>, whereas
  \<open>\n\<close> by itself is a line feed: after \<open>\q\<close> the scanner is still in the control, with
  nothing added to the text, and the backslash that follows is taken into the invalid
  control instead of starting a control of its own.
\<close>

theorem unrecognized_control_takes_next_character:
  "BuildReplacementText latin_qt fresh_builder year_sre sample_text sample_spans
     (BACKSLASH # QStr ''q'' @ BACKSLASH # QStr ''n'') []
     = (True, BACKSLASH # QStr ''q'' @ BACKSLASH # QStr ''n'',
        \<lparr>m_finalText = BACKSLASH # QStr ''q'' @ BACKSLASH # QStr ''n'',
           m_caseChangeState = CaseChange_None\<rparr>)
   \<and> BuildReplacementText latin_qt fresh_builder year_sre sample_text sample_spans
       (BACKSLASH # QStr ''n'') []
     = (True, [0x0A], \<lparr>m_finalText = [0x0A], m_caseChangeState = CaseChange_None\<rparr>)
   \<and> in_control (scan_pattern latin_qt year_sre sample_text sample_spans
         (BACKSLASH # QStr ''q'') (locals_init fresh_builder))
   \<and> builder.truncate (scan_pattern latin_qt year_sre sample_text sample_spans
         (BACKSLASH # QStr ''q'') (locals_init fresh_builder)) = fresh_builder"
  by (simp add: build_defs body_defs segment_defs latin_defs sample_defs Let_def)

section \<open>Hexadecimal escapes of two digits\<close>

text \<open>
  Scanned from the literal state, \<open>\x\<close> and two hexadecimal digits hand the code unit
  of that value to \<open>accumulateReplcementText_QChar\<close>. A character that is neither a
  hexadecimal digit nor \<open>{\<close>, before or after the first digit, makes the raw control
  the segment. A \<open>{\<close> after the first digit does not: \<open>in_hex6\<close> is set and the scanner
  stays in the control.
\<close>

lemma fixed_hex_escape:
  assumes "\<not> in_control s" and "\<not> isDigit qt (qc CHR ''x'')"
    and "is_hex h1" and "is_hex h2"
  shows "\<not> in_control (scan_pattern qt sre source caps (BACKSLASH # QStr ''x'' @ [h1, h2]) s)"
    and "builder.truncate (scan_pattern qt sre source caps (BACKSLASH # QStr ''x'' @ [h1, h2]) s)
           = accumulateReplcementText_QChar qt (QChar_of_uint (hex_value [h1, h2]))
               (builder.truncate s)"
    and "in_control (scan_pattern qt sre source caps (BACKSLASH # QStr ''x'' @ [h1]) s)"
proof -
  have ne: "h1 \<noteq> 0x7B" "h2 \<noteq> 0x7B" "h1 \<noteq> 0x7D" "h2 \<noteq> 0x7D"
    using assms(3,4) by auto
  have v: "toUInt16 [h1, h2] = hex_value [h1, h2]"
    using assms(3,4) by (intro toUInt16_hex) simp_all
  show "\<not> in_control (scan_pattern qt sre source caps (BACKSLASH # QStr ''x'' @ [h1, h2]) s)"
    "builder.truncate (scan_pattern qt sre source caps (BACKSLASH # QStr ''x'' @ [h1, h2]) s)
           = accumulateReplcementText_QChar qt (QChar_of_uint (hex_value [h1, h2]))
               (builder.truncate s)"
    "in_control (scan_pattern qt sre source caps (BACKSLASH # QStr ''x'' @ [h1]) s)"
    using assms ne
    by (simp_all add: loop_body_def control_start_def control_x_def Let_def
        truncate_accumulate_QChar v)
qed

lemma fixed_hex_abort:
  assumes "\<not> in_control s" and "\<not> isDigit qt (qc CHR ''x'')"
    and "is_hex h1" and "\<not> is_hex c" and "c \<noteq> qc CHR ''{''"
  shows "\<not> in_control (scan_pattern qt sre source caps (BACKSLASH # QStr ''x'' @ [c]) s)"
    and "builder.truncate (scan_pattern qt sre source caps (BACKSLASH # QStr ''x'' @ [c]) s)
           = accumulateReplcementText qt (BACKSLASH # QStr ''x'' @ [c]) (builder.truncate s)"
    and "\<not> in_control (scan_pattern qt sre source caps (BACKSLASH # QStr ''x'' @ [h1, c]) s)"
    and "builder.truncate (scan_pattern qt sre source caps (BACKSLASH # QStr ''x'' @ [h1, c]) s)
           = accumulateReplcementText qt (BACKSLASH # QStr ''x'' @ [h1, c])
               (builder.truncate s)"
proof -
  have ne: "h1 \<noteq> 0x7B" "h1 \<noteq> 0x7D"
    using assms(3) by auto
  show "\<not> in_control (scan_pattern qt sre source caps (BACKSLASH # QStr ''x'' @ [c]) s)"
    "builder.truncate (scan_pattern qt sre source caps (BACKSLASH # QStr ''x'' @ [c]) s)
           = accumulateReplcementText qt (BACKSLASH # QStr ''x'' @ [c]) (builder.truncate s)"
    "\<not> in_control (scan_pattern qt sre source caps (BACKSLASH # QStr ''x'' @ [h1, c]) s)"
    "builder.truncate (scan_pattern qt sre source caps (BACKSLASH # QStr ''x'' @ [h1, c]) s)
           = accumulateReplcementText qt (BACKSLASH # QStr ''x'' @ [h1, c])
               (builder.truncate s)"
    using assms ne
    by (simp_all add: loop_body_def control_start_def control_x_def Let_def
        truncate_accumulate)
qed

lemma brace_after_hex_digit_opens_braced_form:
  assumes "\<not> in_control s" and "\<not> isDigit qt (qc CHR ''x'')" and "is_hex h1"
  shows "in_control (scan_pattern qt sre source caps (BACKSLASH # QStr ''x'' @ h1 # QStr ''{'') s)"
    and "in_hex6 (scan_pattern qt sre source caps (BACKSLASH # QStr ''x'' @ h1 # QStr ''{'') s)"
    and "builder.truncate
           (scan_pattern qt sre source caps (BACKSLASH # QStr ''x'' @ h1 # QStr ''{'') s)
          = builder.truncate s"
proof -
  have ne: "h1 \<noteq> 0x7B" "h1 \<noteq> 0x7D"
    using assms(3) by auto
  show "in_control (scan_pattern qt sre source caps (BACKSLASH # QStr ''x'' @ h1 # QStr ''{'') s)"
    "in_hex6 (scan_pattern qt sre source caps (BACKSLASH # QStr ''x'' @ h1 # QStr ''{'') s)"
    "builder.truncate
           (scan_pattern qt sre source caps (BACKSLASH # QStr ''x'' @ h1 # QStr ''{'') s)
          = builder.truncate s"
    using assms ne
    by (simp_all add: loop_body_def control_start_def control_x_def Let_def)
qed

text \<open>
  C7: on the pattern \<open>\x4{41}\<close> the builder returns \<open>A\<close>. The \<open>{\<close> after the digit
  \<open>4\<close> does not end the control with the raw text \<open>\x4{\<close>; it opens the form in
  braces, the digit \<open>4\<close> is dropped, and \<open>41\<close> is decoded at the closing brace.
\<close>

theorem brace_after_hex_digit_is_accepted:
  "BuildReplacementText latin_qt fresh_builder year_sre sample_text sample_spans
     (BACKSLASH # QStr ''x4{41}'') []
     = (True, QStr ''A'', \<lparr>m_finalText = QStr ''A'', m_caseChangeState = CaseChange_None\<rparr>)
   \<and> in_control (scan_pattern latin_qt year_sre sample_text sample_spans
         (BACKSLASH # QStr ''x4{'') (locals_init fresh_builder))
   \<and> builder.truncate (scan_pattern latin_qt year_sre sample_text sample_spans
         (BACKSLASH # QStr ''x4{'') (locals_init fresh_builder)) = fresh_builder"
  by (simp add: build_defs body_defs segment_defs latin_defs sample_defs hex_defs Let_def)

end
